theory Spec2Isabelle
  imports Main "HOL-Library.Sublist"
begin

section \<open>Python strings\<close>

text \<open>
  A Python \<open>str\<close> is modelled as a \<open>string\<close>, each \<open>char\<close> being one code point
  below 256. On that range the tables below are those of CPython: \<open>str.isspace\<close> (which is
  also the class \<open>\s\<close> of \<open>re\<close>), \<open>str.lower\<close>, the line boundaries of
  \<open>str.splitlines\<close>, and the class \<open>\d\<close>.
\<close>

definition isspace :: "char \<Rightarrow> bool" where
  "isspace c = (let n = (of_char c :: nat)
                in (9 \<le> n \<and> n \<le> 13) \<or> (28 \<le> n \<and> n \<le> 32) \<or> n = 133 \<or> n = 160)"

definition isdigit :: "char \<Rightarrow> bool" where
  "isdigit c = (let n = (of_char c :: nat) in 48 \<le> n \<and> n \<le> 57)"

definition is_linebreak :: "char \<Rightarrow> bool" where
  "is_linebreak c = (let n = (of_char c :: nat)
                     in (10 \<le> n \<and> n \<le> 13) \<or> (28 \<le> n \<and> n \<le> 30) \<or> n = 133)"

definition lower_char :: "char \<Rightarrow> char" where
  "lower_char c = (let n = (of_char c :: nat)
                   in if (65 \<le> n \<and> n \<le> 90) \<or> (192 \<le> n \<and> n \<le> 222 \<and> n \<noteq> 215)
                      then char_of (n + 32) else c)"

definition lower :: "string \<Rightarrow> string" where
  "lower s = map lower_char s"

definition strip :: "string \<Rightarrow> string" where
  "strip s = rev (dropWhile isspace (rev (dropWhile isspace s)))"

fun startswith :: "string \<Rightarrow> string \<Rightarrow> bool" where
  "startswith s [] = True"
| "startswith [] (p # ps) = False"
| "startswith (c # cs) (p # ps) = (c = p \<and> startswith cs ps)"

text \<open>\<open>py_in sub s\<close> is Python's \<open>sub in s\<close> on strings.\<close>

fun py_in :: "string \<Rightarrow> string \<Rightarrow> bool" where
  "py_in sub [] = (sub = [])"
| "py_in sub (c # cs) = (startswith (c # cs) sub \<or> py_in sub cs)"

text \<open>
  \<open>str.splitlines()\<close>: a line ends at a line boundary, \<open>\r\n\<close> counts as one boundary,
  and no empty last line is produced after a final boundary. \<open>cur\<close> is the line read so far.
\<close>

fun splitlines_from :: "string \<Rightarrow> string \<Rightarrow> string list" where
  "splitlines_from cur [] = (if cur = [] then [] else [cur])"
| "splitlines_from cur [c] = (if is_linebreak c then [cur] else [cur @ [c]])"
| "splitlines_from cur (c # d # ds) =
     (if c = CHR 0x0D \<and> d = CHR 0x0A then cur # splitlines_from [] ds
      else if is_linebreak c then cur # splitlines_from [] (d # ds)
      else splitlines_from (cur @ [c]) (d # ds))"

definition splitlines :: "string \<Rightarrow> string list" where
  "splitlines s = splitlines_from [] s"

section \<open>The regular expressions of \<open>extract_info\<close>\<close>

text \<open>
  \<open>re.search\<close> with \<open>re.IGNORECASE\<close>, for patterns built from literals, greedy starred
  character classes and single characters of a class. A pattern is a matcher that takes the
  text still to be read and a continuation; a greedy star tries its longest run first and
  gives characters back one at a time (backtracking), and the search tries every start
  position from the left. The captured groups are handed to the continuation.
\<close>

definition lit_ci :: "string \<Rightarrow> (string \<Rightarrow> 'a option) \<Rightarrow> string \<Rightarrow> 'a option" where
  "lit_ci l k s =
     (if length l \<le> length s \<and> lower (take (length l) s) = lower l
      then k (drop (length l) s) else None)"

fun try_down :: "(nat \<Rightarrow> 'a option) \<Rightarrow> nat \<Rightarrow> 'a option" where
  "try_down f 0 = f 0"
| "try_down f (Suc n) = (case f (Suc n) of Some r \<Rightarrow> Some r | None \<Rightarrow> try_down f n)"

definition star_greedy ::
  "(char \<Rightarrow> bool) \<Rightarrow> (string \<Rightarrow> string \<Rightarrow> 'a option) \<Rightarrow> string \<Rightarrow> 'a option" where
  "star_greedy P k s = try_down (\<lambda>n. k (take n s) (drop n s)) (length (takeWhile P s))"

fun one_of :: "(char \<Rightarrow> bool) \<Rightarrow> (char \<Rightarrow> string \<Rightarrow> 'a option) \<Rightarrow> string \<Rightarrow> 'a option" where
  "one_of P k [] = None"
| "one_of P k (c # cs) = (if P c then k c cs else None)"

fun re_search :: "(string \<Rightarrow> 'a option) \<Rightarrow> string \<Rightarrow> 'a option" where
  "re_search p [] = p []"
| "re_search p (c # cs) = (case p (c # cs) of Some r \<Rightarrow> Some r | None \<Rightarrow> re_search p cs)"

text \<open>
  The pattern \<open>LABEL\s*(.*)\(Score:\s*(\d)/5\)\<close>; the result is (group 1, group 2).
  The dot matches every character but the newline.
\<close>

definition score_re :: "string \<Rightarrow> string \<Rightarrow> (string \<times> char) option" where
  "score_re label =
     lit_ci label (star_greedy isspace (\<lambda>_.
       star_greedy (\<lambda>c. c \<noteq> CHR 0x0A) (\<lambda>g1.
         lit_ci ''(Score:'' (star_greedy isspace (\<lambda>_.
           one_of isdigit (\<lambda>g2.
             lit_ci ''/5)'' (\<lambda>_. Some (g1, g2))))))))"

text \<open>\<open>int(d)\<close> for a string of one decimal digit.\<close>

definition int_of_digit :: "char \<Rightarrow> int" where
  "int_of_digit c = int (of_char c) - 48"

section \<open>\<open>extract_info\<close>\<close>

datatype cursor = SecSummary | SecBehavior | SecConv | SecKnow

record locals =
  summary :: string
  behavior :: string
  conv :: string
  know :: string
  sb :: int
  sc :: int
  sk :: int
  current :: "cursor option"

definition init_locals :: locals where
  "init_locals = \<lparr>summary = [], behavior = [], conv = [], know = [],
                   sb = 1, sc = 1, sk = 1, current = None\<rparr>"

text \<open>The body of the loop over the lines.\<close>

definition step :: "locals \<Rightarrow> string \<Rightarrow> locals" where
  "step st line =
     (let line_lower = lower (strip line) in
      if startswith line_lower ''summary:'' then
        st\<lparr>current := Some SecSummary, summary := []\<rparr>
      else if py_in ''- behavior:'' line_lower then
        (case re_search (score_re ''- Behavior:'') line of
           Some (g1, g2) \<Rightarrow>
             st\<lparr>current := Some SecBehavior, behavior := strip g1, sb := int_of_digit g2\<rparr>
         | None \<Rightarrow> st\<lparr>current := Some SecBehavior\<rparr>)
      else if py_in ''- conversation quality:'' line_lower then
        (case re_search (score_re ''- Conversation Quality:'') line of
           Some (g1, g2) \<Rightarrow>
             st\<lparr>current := Some SecConv, conv := strip g1, sc := int_of_digit g2\<rparr>
         | None \<Rightarrow> st\<lparr>current := Some SecConv\<rparr>)
      else if py_in ''- know-how of the issue:'' line_lower then
        (case re_search (score_re ''- Know-How of the Issue:'') line of
           Some (g1, g2) \<Rightarrow>
             st\<lparr>current := Some SecKnow, know := strip g1, sk := int_of_digit g2\<rparr>
         | None \<Rightarrow> st\<lparr>current := Some SecKnow\<rparr>)
      else if current st = Some SecSummary then
        st\<lparr>summary := summary st @ line @ '' ''\<rparr>
      else st)"

definition extract_info ::
  "string \<Rightarrow> string \<times> string \<times> string \<times> string \<times> int \<times> int \<times> int" where
  "extract_info groq_output =
     (let st = foldl step init_locals (splitlines groq_output)
      in (strip (summary st), behavior st, conv st, know st, sb st, sc st, sk st))"

section \<open>\<open>detect_sensitive_info\<close>\<close>

definition red_flags :: "string list" where
  "red_flags = [''credit card'', ''password'', ''cvv'', ''otp'', ''pin'', ''ssn'',
                ''account number'']"

definition detect_sensitive_info :: "string \<Rightarrow> bool" where
  "detect_sensitive_info convo =
     (let convo_lower = lower convo in list_ex (\<lambda>flag. py_in flag convo_lower) red_flags)"

section \<open>The log and the two entry points\<close>

text \<open>
  An instant is a number of microseconds since the epoch, in UTC. The rows of the CSV file
  after its header line are a list; \<open>to_csv(mode="a", header=False)\<close> adds one row at the
  end. The tokenizer and the completion service are parameters, each returning either the
  message of the exception it raised or its value; \<open>llm_calls\<close> records the conversations
  sent to the completion service, and the \<open>n\<close>-th reading of the clock is \<open>utcnow env n\<close>.
\<close>

type_synonym instant = int

record row =
  Conversation :: string
  Summary :: string
  Behavior_Eval :: string
  Behavior_Score :: int
  Conversation_Eval :: string
  Conversation_Score :: int
  Knowhow_Eval :: string
  Knowhow_Score :: int
  Agent_Reported :: bool
  Timestamp_UTC :: instant
  Date_IST :: int
  Time_IST :: int

record env =
  estimate_tokens :: "string \<Rightarrow> string + nat"
  evaluate_convo :: "string \<Rightarrow> string + string"
  utcnow :: "nat \<Rightarrow> instant"

record world =
  csv_rows :: "row list"
  llm_calls :: "string list"
  clock_reads :: nat

text \<open>Asia/Kolkata is UTC+05:30; the date is in days since the epoch, the time in microseconds.\<close>

definition tz_convert_ist :: "instant \<Rightarrow> instant" where
  "tz_convert_ist t = t + 19800000000"

definition log_to_csv ::
  "env \<Rightarrow> world \<Rightarrow> string \<Rightarrow> string \<Rightarrow> string \<Rightarrow> string \<Rightarrow> string \<Rightarrow> int \<Rightarrow> int \<Rightarrow> int \<Rightarrow> bool
   \<Rightarrow> world" where
  "log_to_csv e w convo summary' behavior' conv' know' sb' sc' sk' flagged =
     (let timestamp_utc = utcnow e (clock_reads w);
          timestamp_ist = tz_convert_ist timestamp_utc;
          r = \<lparr>Conversation = convo, Summary = summary',
               Behavior_Eval = behavior', Behavior_Score = sb',
               Conversation_Eval = conv', Conversation_Score = sc',
               Knowhow_Eval = know', Knowhow_Score = sk',
               Agent_Reported = flagged, Timestamp_UTC = timestamp_utc,
               Date_IST = timestamp_ist div 86400000000,
               Time_IST = timestamp_ist mod 86400000000\<rparr>
      in w\<lparr>clock_reads := Suc (clock_reads w), csv_rows := csv_rows w @ [r]\<rparr>)"

record eval_entry =
  text_of :: string
  score_of :: int

record result =
  tokens_estimated :: nat
  agent_reported :: bool
  timestamp_utc :: instant
  summary_of :: string
  behavior_of :: eval_entry
  conversation_quality_of :: eval_entry
  know_how_of :: eval_entry

datatype body = Result result | Error string

text \<open>
  The handler of \<open>POST /evaluate\<close> (api.py): the JSON object of the request is a map from
  keys to strings, the answer is a body and an HTTP status.
\<close>

definition evaluate :: "env \<Rightarrow> world \<Rightarrow> (string \<rightharpoonup> string) \<Rightarrow> world \<times> body \<times> nat" where
  "evaluate e w data =
     (let convo = (case data ''conversation'' of Some c \<Rightarrow> c | None \<Rightarrow> []) in
      if strip convo = [] then (w, Error ''Conversation is required'', 400)
      else
        (case estimate_tokens e convo of
           Inl msg \<Rightarrow> (w, Error msg, 500)
         | Inr tokens \<Rightarrow>
             (let flagged = detect_sensitive_info convo;
                  now = utcnow e (clock_reads w);
                  w1 = w\<lparr>clock_reads := Suc (clock_reads w),
                         llm_calls := llm_calls w @ [convo]\<rparr>
              in case evaluate_convo e convo of
                   Inl msg \<Rightarrow> (w1, Error msg, 500)
                 | Inr output \<Rightarrow>
                     (case extract_info output of
                        (summary', behavior', conv', know', sb', sc', sk') \<Rightarrow>
                          (log_to_csv e w1 convo summary' behavior' conv' know' sb' sc' sk'
                             flagged,
                           Result \<lparr>tokens_estimated = tokens, agent_reported = flagged,
                                   timestamp_utc = now, summary_of = summary',
                                   behavior_of = \<lparr>text_of = behavior', score_of = sb'\<rparr>,
                                   conversation_quality_of =
                                     \<lparr>text_of = conv', score_of = sc'\<rparr>,
                                   know_how_of = \<lparr>text_of = know', score_of = sk'\<rparr>\<rparr>,
                           200)))))"

text \<open>The form of app.py: \<open>cache_result\<close> computes the flag itself.\<close>

definition cache_result ::
  "env \<Rightarrow> world \<Rightarrow> string \<Rightarrow> string \<Rightarrow> string \<Rightarrow> string \<Rightarrow> string \<Rightarrow> int \<Rightarrow> int \<Rightarrow> int \<Rightarrow> world" where
  "cache_result e w convo summary' beh conv' know' sb' sc' sk' =
     (let agent_flagged = detect_sensitive_info convo;
          timestamp_utc = utcnow e (clock_reads w);
          timestamp_ist = tz_convert_ist timestamp_utc;
          r = \<lparr>Conversation = convo, Summary = summary',
               Behavior_Eval = beh, Behavior_Score = sb',
               Conversation_Eval = conv', Conversation_Score = sc',
               Knowhow_Eval = know', Knowhow_Score = sk',
               Agent_Reported = agent_flagged, Timestamp_UTC = timestamp_utc,
               Date_IST = timestamp_ist div 86400000000,
               Time_IST = timestamp_ist mod 86400000000\<rparr>
      in w\<lparr>clock_reads := Suc (clock_reads w), csv_rows := csv_rows w @ [r]\<rparr>)"

text \<open>
  The submission of the form: nothing is done unless the form was submitted with a
  conversation that is not blank; an exception of the completion service ends the run.
  The value is what the page shows: the exception, nothing, or the evaluation.
\<close>

definition analyze_conversation ::
  "env \<Rightarrow> world \<Rightarrow> bool \<Rightarrow> string
   \<Rightarrow> world \<times> (string + (string \<times> string \<times> string \<times> string \<times> int \<times> int \<times> int) option)" where
  "analyze_conversation e w submitted convo_input =
     (if submitted \<and> strip convo_input \<noteq> [] then
        (let w1 = w\<lparr>llm_calls := llm_calls w @ [convo_input]\<rparr>
         in case evaluate_convo e convo_input of
              Inl msg \<Rightarrow> (w1, Inl msg)
            | Inr output \<Rightarrow>
                (case extract_info output of
                   (summary', beh_eval, conv_eval, know_eval, sb', sc', sk') \<Rightarrow>
                     (cache_result e w1 convo_input summary' beh_eval conv_eval know_eval
                        sb' sc' sk',
                      Inr (Some (summary', beh_eval, conv_eval, know_eval, sb', sc', sk')))))
      else (w, Inr None))"

section \<open>Vocabulary of the properties\<close>

text \<open>
  \<open>branch line\<close> is the branch of the \<open>if\<close>/\<open>elif\<close> chain of the loop body that a line
  takes (\<open>None\<close> for the final \<open>else\<close>), \<open>label c\<close> the label in the regular expression of
  that branch, and \<open>category c r\<close> the (text, score) pair of a category in the tuple that
  \<open>extract_info\<close> returns.
\<close>

definition branch :: "string \<Rightarrow> cursor option" where
  "branch line =
     (let line_lower = lower (strip line) in
      if startswith line_lower ''summary:'' then Some SecSummary
      else if py_in ''- behavior:'' line_lower then Some SecBehavior
      else if py_in ''- conversation quality:'' line_lower then Some SecConv
      else if py_in ''- know-how of the issue:'' line_lower then Some SecKnow
      else None)"

fun label :: "cursor \<Rightarrow> string" where
  "label SecSummary = ''summary:''"
| "label SecBehavior = ''- Behavior:''"
| "label SecConv = ''- Conversation Quality:''"
| "label SecKnow = ''- Know-How of the Issue:''"

fun category ::
  "cursor \<Rightarrow> string \<times> string \<times> string \<times> string \<times> int \<times> int \<times> int \<Rightarrow> (string \<times> int) option" where
  "category SecSummary r = None"
| "category SecBehavior (s, b, c, k, nb, nc, nk) = Some (b, nb)"
| "category SecConv (s, b, c, k, nb, nc, nk) = Some (c, nc)"
| "category SecKnow (s, b, c, k, nb, nc, nk) = Some (k, nk)"

text \<open>The (text, score) pair of a category among the local variables of the loop.\<close>

fun captured :: "cursor \<Rightarrow> locals \<Rightarrow> (string \<times> int) option" where
  "captured SecSummary st = None"
| "captured SecBehavior st = Some (behavior st, sb st)"
| "captured SecConv st = Some (conv st, sc st)"
| "captured SecKnow st = Some (know st, sk st)"

text \<open>The scenario of a well-formed completion.\<close>

definition scenario2 :: string where
  "scenario2 =
     ''Summary:'' @ [CHR 0x0A] @
     ''Customer could not log in.'' @ [CHR 0x0A] @
     [CHR 0x0A] @
     ''Agent Evaluation:'' @ [CHR 0x0A] @
     ''- Behavior: Polite and professional (Score: 4/5)'' @ [CHR 0x0A] @
     ''- Conversation Quality: Clear and responsive (Score: 5/5)'' @ [CHR 0x0A] @
     ''- Know-How of the Issue: Correct fix offered (Score: 5/5)''"

text \<open>
  An environment whose tokenizer counts characters, whose completion service always answers
  with the given text and whose clock counts its readings; and the world of a log that holds
  its header line only.
\<close>

definition sample_env :: "string \<Rightarrow> env" where
  "sample_env completion =
     \<lparr>estimate_tokens = (\<lambda>c. Inr (length c)), evaluate_convo = (\<lambda>_. Inr completion),
      utcnow = (\<lambda>n. int n)\<rparr>"

definition empty_world :: world where
  "empty_world = \<lparr>csv_rows = [], llm_calls = [], clock_reads = 0\<rparr>"

section \<open>Strings, lines and the regular expression\<close>

lemma startswith_prefix: "startswith s p \<longleftrightarrow> prefix p s"
  by (induction s p rule: startswith.induct) auto

lemma py_in_sublist: "py_in sub s \<longleftrightarrow> sublist sub s"
  by (induction s) (auto simp: startswith_prefix sublist_Cons_right)

lemma py_in_append: "py_in sub s \<longleftrightarrow> (\<exists>pre post. s = pre @ sub @ post)"
  by (simp add: py_in_sublist sublist_def)

lemma sublist_strip: "sublist (strip l) l"
proof -
  have "suffix (dropWhile isspace l) l"
    by (rule suffix_dropWhile)
  moreover have "prefix (rev (dropWhile isspace (rev (dropWhile isspace l)))) (dropWhile isspace l)"
  proof -
    have "suffix (dropWhile isspace (rev (dropWhile isspace l))) (rev (dropWhile isspace l))"
      by (rule suffix_dropWhile)
    then show ?thesis by (metis suffix_to_prefix rev_rev_ident)
  qed
  ultimately show ?thesis unfolding strip_def
    by (meson prefix_imp_sublist suffix_imp_sublist sublist_order.order_trans)
qed

lemma sublist_lower: "sublist a b \<Longrightarrow> sublist (lower a) (lower b)"
  unfolding sublist_def lower_def by (metis map_append)

lemma splitlines_from_sublist: "l \<in> set (splitlines_from cur s) \<Longrightarrow> sublist l (cur @ s)"
proof (induction cur s rule: splitlines_from.induct)
  case (1 cur)
  then show ?case by (auto split: if_splits)
next
  case (2 cur c)
  then show ?case by (auto split: if_splits simp: sublist_append_rightI)
next
  case (3 cur c d ds)
  show ?case
  proof (cases "c = CHR 0x0D \<and> d = CHR 0x0A")
    case True
    with 3 have "l = cur \<or> sublist l ds" by auto
    then show ?thesis
    proof
      assume "l = cur" then show ?thesis by simp
    next
      assume "sublist l ds"
      then have "sublist l ((cur @ [c, d]) @ ds)"
        unfolding sublist_def by (metis append.assoc)
      then show ?thesis by simp
    qed
  next
    case False
    note crlf = this
    show ?thesis
    proof (cases "is_linebreak c")
      case True
      with crlf 3 have "l = cur \<or> sublist l (d # ds)" by auto
      then show ?thesis
      proof
        assume "l = cur" then show ?thesis by simp
      next
        assume "sublist l (d # ds)"
        then have "sublist l ((cur @ [c]) @ d # ds)"
          unfolding sublist_def by (metis append.assoc)
        then show ?thesis by simp
      qed
    next
      case False
      with crlf 3 have "sublist l ((cur @ [c]) @ d # ds)" by auto
      then show ?thesis by simp
    qed
  qed
qed

lemma splitlines_sublist: "l \<in> set (splitlines s) \<Longrightarrow> sublist l s"
  using splitlines_from_sublist [of l "[]" s] by (simp add: splitlines_def)

lemma try_down_Some: "try_down f n = Some r \<Longrightarrow> \<exists>m\<le>n. f m = Some r"
  by (induction n) (auto split: option.splits intro: le_SucI)

lemma re_search_Some: "re_search p s = Some r \<Longrightarrow> \<exists>i\<le>length s. p (drop i s) = Some r"
proof (induction s)
  case Nil then show ?case by simp
next
  case (Cons c cs)
  show ?case
  proof (cases "p (c # cs)")
    case None
    with Cons obtain i where "i \<le> length cs" "p (drop i cs) = Some r" by auto
    then have "Suc i \<le> length (c # cs) \<and> p (drop (Suc i) (c # cs)) = Some r" by simp
    then show ?thesis by blast
  next
    case (Some a)
    with Cons.prems have "p (drop 0 (c # cs)) = Some r" by simp
    then show ?thesis by blast
  qed
qed

lemma lit_ci_Some: "lit_ci l k s = Some r \<Longrightarrow> k (drop (length l) s) = Some r"
  by (simp add: lit_ci_def split: if_splits)

lemma star_greedy_Some: "star_greedy P k s = Some r \<Longrightarrow> \<exists>n. k (take n s) (drop n s) = Some r"
  unfolding star_greedy_def by (drule try_down_Some) blast

lemma one_of_Some: "one_of P k s = Some r \<Longrightarrow> \<exists>c cs. s = c # cs \<and> P c \<and> k c cs = Some r"
  by (cases s) (auto split: if_splits)


lemma score_re_digit: "score_re lab s = Some (g1, g2) \<Longrightarrow> isdigit g2"
  unfolding score_re_def
  by (auto dest!: lit_ci_Some star_greedy_Some one_of_Some)

lemma re_search_score_digit:
  "re_search (score_re lab) s = Some (g1, g2) \<Longrightarrow> isdigit g2"
  by (auto dest!: re_search_Some dest: score_re_digit)

lemma int_of_digit_range: "isdigit c \<Longrightarrow> 0 \<le> int_of_digit c \<and> int_of_digit c \<le> 9"
  by (simp add: isdigit_def int_of_digit_def Let_def)


text \<open>\<open>branch\<close> is the branch that \<open>step\<close> takes: it decides the cursor.\<close>

lemma step_current:
  "current (step st l) = (case branch l of Some c \<Rightarrow> Some c | None \<Rightarrow> current st)"
  by (auto simp: step_def branch_def Let_def split: option.splits)

lemma captured_summary: "captured SecSummary st = None"
  by simp

lemma step_no_match:
  "branch l = Some c \<Longrightarrow> c \<noteq> SecSummary \<Longrightarrow> re_search (score_re (label c)) l = None
   \<Longrightarrow> step st l = st\<lparr>current := Some c\<rparr>"
  by (cases c) (auto simp: step_def branch_def Let_def split: if_splits)

lemma step_match:
  "branch l = Some c \<Longrightarrow> c \<noteq> SecSummary \<Longrightarrow> re_search (score_re (label c)) l = Some (t, d)
   \<Longrightarrow> captured c (step st l) = Some (strip t, int_of_digit d)"
  by (cases c) (auto simp: step_def branch_def Let_def split: if_splits)

lemma step_other_branch:
  "branch l \<noteq> Some c \<Longrightarrow> captured c (step st l) = captured c st"
  by (cases c) (auto simp: step_def branch_def Let_def split: if_splits option.splits)

lemma step_keeps:
  assumes "branch l = Some c \<longrightarrow> re_search (score_re (label c)) l = None"
  shows "captured c (step st l) = captured c st"
proof (cases "branch l = Some c")
  case False
  then show ?thesis by (rule step_other_branch)
next
  case True
  show ?thesis
  proof (cases "c = SecSummary")
    case True
    then show ?thesis by simp
  next
    case False
    with True assms have "step st l = st\<lparr>current := Some c\<rparr>"
      by (simp add: step_no_match)
    then show ?thesis by (cases c) simp_all
  qed
qed

lemma foldl_step_keeps:
  "\<forall>l\<in>set ls. branch l = Some c \<longrightarrow> re_search (score_re (label c)) l = None
   \<Longrightarrow> captured c (foldl step st ls) = captured c st"
  by (induction ls arbitrary: st) (simp_all add: step_keeps)

lemma category_extract_info:
  "c \<noteq> SecSummary \<Longrightarrow>
   category c (extract_info text) = captured c (foldl step init_locals (splitlines text))"
  by (cases c) (simp_all add: extract_info_def Let_def)

lemma last_match_wins:
  assumes "splitlines text = pre @ [l] @ post"
    and "branch l = Some c" and "c \<noteq> SecSummary"
    and "re_search (score_re (label c)) l = Some (t, d)"
    and "\<forall>l'\<in>set post. branch l' = Some c \<longrightarrow> re_search (score_re (label c)) l' = None"
  shows "category c (extract_info text) = Some (strip t, int_of_digit d)"
proof -
  have "captured c (foldl step init_locals (pre @ [l] @ post))
        = captured c (step (foldl step init_locals pre) l)"
    using assms(5) by (simp add: foldl_step_keeps)
  also have "\<dots> = Some (strip t, int_of_digit d)"
    using assms(2-4) by (rule step_match)
  finally show ?thesis using assms(1,3) by (simp add: category_extract_info)
qed

lemma no_match_defaults:
  assumes "c \<noteq> SecSummary"
    and "\<forall>l\<in>set (splitlines text). branch l = Some c \<longrightarrow> re_search (score_re (label c)) l = None"
  shows "category c (extract_info text) = Some ([], 1)"
proof -
  have "captured c (foldl step init_locals (splitlines text)) = captured c init_locals"
    using assms(2) by (rule foldl_step_keeps)
  with assms(1) show ?thesis
    by (cases c) (simp_all add: category_extract_info init_locals_def)
qed

lemma step_score_range:
  assumes "0 \<le> sb st \<and> sb st \<le> 9" "0 \<le> sc st \<and> sc st \<le> 9" "0 \<le> sk st \<and> sk st \<le> 9"
  shows "(0 \<le> sb (step st l) \<and> sb (step st l) \<le> 9)
       \<and> (0 \<le> sc (step st l) \<and> sc (step st l) \<le> 9)
       \<and> (0 \<le> sk (step st l) \<and> sk (step st l) \<le> 9)"
  using assms
  by (auto simp: step_def Let_def split: option.splits
           dest!: re_search_score_digit int_of_digit_range)

lemma foldl_step_score_range:
  "0 \<le> sb st \<and> sb st \<le> 9 \<Longrightarrow> 0 \<le> sc st \<and> sc st \<le> 9 \<Longrightarrow> 0 \<le> sk st \<and> sk st \<le> 9 \<Longrightarrow>
   (0 \<le> sb (foldl step st ls) \<and> sb (foldl step st ls) \<le> 9)
 \<and> (0 \<le> sc (foldl step st ls) \<and> sc (foldl step st ls) \<le> 9)
 \<and> (0 \<le> sk (foldl step st ls) \<and> sk (foldl step st ls) \<le> 9)"
proof (induction ls arbitrary: st)
  case Nil
  then show ?case by simp
next
  case (Cons l ls)
  from step_score_range [OF Cons.prems, of l] show ?case
    by (simp add: Cons.IH)
qed

lemma step_else:
  "branch l = None \<Longrightarrow> current st \<noteq> Some SecSummary \<Longrightarrow> step st l = st"
  by (auto simp: step_def branch_def Let_def split: if_splits)

lemma foldl_step_else:
  "\<forall>l\<in>set ls. branch l = None \<Longrightarrow> current st \<noteq> Some SecSummary \<Longrightarrow> foldl step st ls = st"
  by (induction ls) (simp_all add: step_else)

lemma line_marker_in_text:
  assumes "l \<in> set (splitlines text)" and "py_in m (lower (strip l))"
  shows "py_in m (lower text)"
proof -
  have "sublist (strip l) text"
    using sublist_strip splitlines_sublist [OF assms(1)]
    by (rule sublist_order.order_trans)
  then have "sublist (lower (strip l)) (lower text)" by (rule sublist_lower)
  with assms(2) show ?thesis
    unfolding py_in_sublist by (metis sublist_order.order_trans)
qed

lemma blank_strip:
  assumes "\<forall>ch\<in>set s. isspace ch"
  shows "strip s = []"
  using assms by (auto simp: strip_def dest: set_dropWhileD)

lemma strip_Nil: "strip [] = []"
  by (simp add: strip_def)

lemma detect_otp:
  assumes "sublist ''Please share your OTP'' convo"
  shows "detect_sensitive_info convo"
proof -
  have "lower ''Please share your OTP'' = ''please share your '' @ ''otp'' @ []"
    by code_simp
  then have "sublist ''otp'' (lower ''Please share your OTP'')"
    unfolding sublist_def by blast
  moreover have "sublist (lower ''Please share your OTP'') (lower convo)"
    using assms by (rule sublist_lower)
  ultimately have "py_in ''otp'' (lower convo)"
    unfolding py_in_sublist by (rule sublist_order.order_trans)
  then show ?thesis
    by (simp add: detect_sensitive_info_def red_flags_def)
qed

lemma evaluate_Result:
  assumes "evaluate e w data = (w', Result r, status)" and "data ''conversation'' = Some convo"
  shows "agent_reported r = detect_sensitive_info convo
       \<and> (\<exists>rw. csv_rows w' = csv_rows w @ [rw] \<and> Agent_Reported rw = detect_sensitive_info convo)"
  using assms
  by (auto simp: evaluate_def log_to_csv_def Let_def split: if_splits sum.splits prod.splits)

lemma cache_result_flag:
  "\<exists>rw. csv_rows (cache_result e w convo s b c k nb nc nk) = csv_rows w @ [rw]
       \<and> Agent_Reported rw = detect_sensitive_info convo"
  by (simp add: cache_result_def Let_def)

lemma lit_ci_Some_prefix:
  "lit_ci l k s = Some r \<Longrightarrow> lower (take (length l) s) = lower l"
  by (simp add: lit_ci_def split: if_splits)

lemma score_re_needs_score:
  assumes "score_re lab s = Some r"
  shows "sublist ''(score:'' (lower s)"
proof -
  from assms have "star_greedy isspace (\<lambda>_.
       star_greedy (\<lambda>c. c \<noteq> CHR 0x0A) (\<lambda>g1.
         lit_ci ''(Score:'' (star_greedy isspace (\<lambda>_.
           one_of isdigit (\<lambda>g2.
             lit_ci ''/5)'' (\<lambda>_. Some (g1, g2)))))))
        (drop (length lab) s) = Some r"
    unfolding score_re_def by (rule lit_ci_Some)
  from star_greedy_Some [OF this] obtain n where "star_greedy (\<lambda>c. c \<noteq> CHR 0x0A) (\<lambda>g1.
         lit_ci ''(Score:'' (star_greedy isspace (\<lambda>_.
           one_of isdigit (\<lambda>g2.
             lit_ci ''/5)'' (\<lambda>_. Some (g1, g2))))))
        (drop n (drop (length lab) s)) = Some r"
    by blast
  from star_greedy_Some [OF this] obtain m where "lit_ci ''(Score:'' (star_greedy isspace (\<lambda>_.
           one_of isdigit (\<lambda>g2.
             lit_ci ''/5)'' (\<lambda>_. Some (take m (drop n (drop (length lab) s)), g2)))))
        (drop m (drop n (drop (length lab) s))) = Some r"
    by blast
  then have "lower (take (length ''(Score:'') (drop m (drop n (drop (length lab) s))))
             = lower ''(Score:''"
    by (rule lit_ci_Some_prefix)
  moreover define x where "x = drop m (drop n (drop (length lab) s))"
  moreover have x: "suffix x s"
    unfolding x_def by (metis suffix_drop suffix_order.order_trans)
  ultimately have "lower (take (length ''(Score:'') x) = lower ''(Score:''" by simp
  moreover have "lower ''(Score:'' = ''(score:''" by code_simp
  ultimately have "''(score:'' = lower (take (length ''(Score:'') x)" by simp
  moreover have "sublist (take (length ''(Score:'') x) s"
    using x by (meson sublist_take suffix_imp_sublist sublist_order.order_trans)
  ultimately show ?thesis by (metis sublist_lower)
qed

lemma re_search_needs_score:
  "\<not> py_in ''(score:'' (lower l) \<Longrightarrow> re_search (score_re lab) l = None"
proof (rule ccontr)
  assume no: "\<not> py_in ''(score:'' (lower l)" and "re_search (score_re lab) l \<noteq> None"
  then obtain r i where "score_re lab (drop i l) = Some r"
    by (auto dest!: re_search_Some)
  then have "sublist ''(score:'' (lower (drop i l))" by (rule score_re_needs_score)
  moreover have "sublist (lower (drop i l)) (lower l)"
    by (rule sublist_lower) simp
  ultimately have "sublist ''(score:'' (lower l)" by (rule sublist_order.order_trans)
  with no show False by (simp add: py_in_sublist)
qed

section \<open>The scores and the handler\<close>

lemma captured_score_range:
  assumes "captured c (foldl step init_locals ls) = Some (t, n)"
  shows "0 \<le> n \<and> n \<le> 9"
proof -
  have "(0 \<le> sb (foldl step init_locals ls) \<and> sb (foldl step init_locals ls) \<le> 9)
      \<and> (0 \<le> sc (foldl step init_locals ls) \<and> sc (foldl step init_locals ls) \<le> 9)
      \<and> (0 \<le> sk (foldl step init_locals ls) \<and> sk (foldl step init_locals ls) \<le> 9)"
    by (rule foldl_step_score_range) (simp_all add: init_locals_def)
  with assms show ?thesis by (cases c) auto
qed

lemma category_Some:
  "c \<noteq> SecSummary \<Longrightarrow> \<exists>t n. category c r = Some (t, n)"
  by (cases c; cases r) auto

lemma sample_env_tokens: "estimate_tokens (sample_env out) convo = Inr (length convo)"
  by (simp add: sample_env_def)

lemma sample_env_completion: "evaluate_convo (sample_env out) convo = Inr out"
  by (simp add: sample_env_def)

lemma evaluate_succeeds:
  assumes "data ''conversation'' = Some convo" and "strip convo \<noteq> []"
    and "estimate_tokens e convo = Inr n" and "evaluate_convo e convo = Inr out"
  shows "\<exists>w' r. evaluate e w data = (w', Result r, 200)"
  using assms by (cases "extract_info out") (simp add: evaluate_def Let_def)

section \<open>The claims\<close>

text \<open>
  C1. On the completion \<open>scenario2\<close> (the line \<open>Summary:\<close>, the summary, an empty line,
  the heading \<open>Agent Evaluation:\<close> and the three bullet lines), \<open>extract_info\<close> returns the
  three texts and the scores 4, 5, 5 of the bullet lines; its summary is not
  \<open>Customer could not log in.\<close> alone: the empty line and the heading are read while the
  cursor is still on the summary, so the summary ends with \<open>Agent Evaluation:\<close>.
\<close>

theorem scenario2_summary_takes_heading:
  "extract_info scenario2 =
     (''Customer could not log in.  Agent Evaluation:'', ''Polite and professional'',
      ''Clear and responsive'', ''Correct fix offered'', 4, 5, 5)"
  unfolding scenario2_def by code_simp

text \<open>
  C2, as stated, fails: a score is whatever digit stands before \<open>/5\<close>, and the bullet
  \<open>- Behavior: rude (Score: 9/5)\<close> gives the behavior score 9, which is not in [1,5].
\<close>

theorem score_nine_counterexample:
  "extract_info ''- Behavior: rude (Score: 9/5)'' = ([], ''rude'', [], [], 9, 1, 1)
   \<and> \<not> (9::int) \<le> 5"
  by code_simp

text \<open>
  C2, amended. For every completion text and each of the three categories, the score that
  \<open>extract_info\<close> returns is an integer from 0 to 9, and it is 1 when no line that takes
  the branch of the category matches the regular expression of that branch.
\<close>

theorem scores_are_single_digits:
  assumes "c \<noteq> SecSummary"
  shows "\<exists>t n. category c (extract_info text) = Some (t, n) \<and> 0 \<le> n \<and> n \<le> 9
           \<and> ((\<forall>l\<in>set (splitlines text).
                  branch l = Some c \<longrightarrow> re_search (score_re (label c)) l = None) \<longrightarrow> n = 1)"
proof -
  from assms obtain t n where tn: "category c (extract_info text) = Some (t, n)"
    using category_Some by blast
  with assms have "captured c (foldl step init_locals (splitlines text)) = Some (t, n)"
    by (simp add: category_extract_info)
  then have "0 \<le> n \<and> n \<le> 9" by (rule captured_score_range)
  moreover have "n = 1"
    if "\<forall>l\<in>set (splitlines text). branch l = Some c \<longrightarrow> re_search (score_re (label c)) l = None"
    using no_match_defaults [OF assms that] tn by simp
  ultimately show ?thesis using tn by blast
qed

theorem scores_are_single_digits_witness:
  "\<exists>t n. category SecBehavior (extract_info ''- Behavior: rude (Score: 9/5)'') = Some (t, n)
       \<and> 0 \<le> n \<and> n \<le> 9"
  using scores_are_single_digits [of SecBehavior "''- Behavior: rude (Score: 9/5)''"]
  by blast

text \<open>
  C3. \<open>detect_sensitive_info\<close> is true exactly when the lowercased conversation contains
  one of the seven red-flag terms as a substring, at any position and with no check of
  word boundaries; so it is false for a conversation that contains none of them.
\<close>

theorem detect_iff_red_flag_substring:
  "detect_sensitive_info convo \<longleftrightarrow>
     (\<exists>flag \<in> {''credit card'', ''password'', ''cvv'', ''otp'', ''pin'', ''ssn'',
                ''account number''}.
        \<exists>pre post. lower convo = pre @ flag @ post)"
  by (simp add: detect_sensitive_info_def red_flags_def py_in_append Let_def)

text \<open>The witness has \<open>pin\<close> inside the word \<open>Opinion\<close>.\<close>

theorem detect_iff_red_flag_substring_witness:
  "detect_sensitive_info ''In my Opinion''"
proof -
  have "lower ''In my Opinion'' = ''in my o'' @ ''pin'' @ ''ion''" by code_simp
  then show ?thesis
    using detect_iff_red_flag_substring [of "''In my Opinion''"] by blast
qed

text \<open>
  C4. When the conversation is empty, missing or made of whitespace only, the handler of
  \<open>/evaluate\<close> answers with the error \<open>Conversation is required\<close> and status 400 and
  leaves the world as it was: no conversation was sent to the completion service and no row
  was added to the log. The form does nothing on such an input either.
\<close>

theorem blank_conversation_rejected:
  assumes "\<forall>ch\<in>set convo. isspace ch"
    and "data ''conversation'' = Some convo \<or> (data ''conversation'' = None \<and> convo = [])"
  shows "evaluate e w data = (w, Error ''Conversation is required'', 400)
       \<and> analyze_conversation e w submitted convo = (w, Inr None)"
  using assms(2) blank_strip [OF assms(1)]
  by (auto simp: evaluate_def analyze_conversation_def strip_Nil)

theorem blank_conversation_rejected_witness:
  "evaluate (sample_env scenario2) empty_world [''conversation'' \<mapsto> [CHR '' '', CHR 0x09, CHR 0x0A]]
     = (empty_world, Error ''Conversation is required'', 400)"
proof -
  have "\<forall>ch\<in>set [CHR '' '', CHR 0x09, CHR 0x0A]. isspace ch"
    by (simp add: isspace_def)
  from blank_conversation_rejected [OF this, of "[''conversation'' \<mapsto> [CHR '' '', CHR 0x09, CHR 0x0A]]"]
  show ?thesis by simp
qed

text \<open>
  C5. The flag \<open>agent_reported\<close> depends on the conversation only. Whatever the two
  environments answer (tokenizer, completion service, clock) and whatever the two worlds
  were, two successful runs of the handler on the same conversation return the same flag,
  which is \<open>detect_sensitive_info\<close> of the conversation; the row added to the log carries
  that flag, and so does the row that \<open>cache_result\<close> adds for any parsed values. A
  conversation that contains \<open>Please share your OTP\<close> is flagged.
\<close>

theorem agent_reported_ignores_completion:
  assumes "data ''conversation'' = Some convo"
    and "evaluate e1 w1 data = (w1', Result r1, s1)"
    and "evaluate e2 w2 data = (w2', Result r2, s2)"
  shows "agent_reported r1 = detect_sensitive_info convo
       \<and> agent_reported r2 = agent_reported r1
       \<and> (\<exists>rw. csv_rows w1' = csv_rows w1 @ [rw] \<and> Agent_Reported rw = detect_sensitive_info convo)
       \<and> (\<exists>rw. csv_rows (cache_result e1 w1 convo s b c k nb nc nk) = csv_rows w1 @ [rw]
               \<and> Agent_Reported rw = detect_sensitive_info convo)
       \<and> ((\<exists>pre post. convo = pre @ ''Please share your OTP'' @ post) \<longrightarrow> agent_reported r1)"
proof -
  note a = evaluate_Result [OF assms(2) assms(1)] and b = evaluate_Result [OF assms(3) assms(1)]
  have "agent_reported r1" if "\<exists>pre post. convo = pre @ ''Please share your OTP'' @ post"
  proof -
    from that have "sublist ''Please share your OTP'' convo" by (simp add: sublist_def)
    then show ?thesis using a by (simp add: detect_otp)
  qed
  then show ?thesis using a b cache_result_flag [of e1 w1 convo s b c k nb nc nk] by simp
qed

theorem agent_reported_ignores_completion_witness:
  "\<exists>w' r s w'' r' s'.
     evaluate (sample_env scenario2) empty_world
        [''conversation'' \<mapsto> ''Agent: Please share your OTP''] = (w', Result r, s)
   \<and> evaluate (sample_env ''no structure'') empty_world
        [''conversation'' \<mapsto> ''Agent: Please share your OTP''] = (w'', Result r', s')
   \<and> agent_reported r \<and> agent_reported r'"
proof -
  let ?d = "[''conversation'' \<mapsto> ''Agent: Please share your OTP'']"
  have d: "?d ''conversation'' = Some ''Agent: Please share your OTP''" by simp
  have ns: "strip ''Agent: Please share your OTP'' \<noteq> []" by code_simp
  obtain w' r where 1: "evaluate (sample_env scenario2) empty_world ?d = (w', Result r, 200)"
    using evaluate_succeeds [where data = ?d and w = empty_world, OF d ns
        sample_env_tokens sample_env_completion]
    by blast
  obtain w'' r' where 2: "evaluate (sample_env ''no structure'') empty_world ?d = (w'', Result r', 200)"
    using evaluate_succeeds [where data = ?d and w = empty_world, OF d ns
        sample_env_tokens sample_env_completion]
    by blast
  have "''Agent: Please share your OTP'' = ''Agent: '' @ ''Please share your OTP'' @ []" by simp
  then have "\<exists>pre post. ''Agent: Please share your OTP'' = pre @ ''Please share your OTP'' @ post"
    by blast
  with agent_reported_ignores_completion [where data = ?d and s = "[]" and b = "[]"
      and c = "[]" and k = "[]" and nb = 1 and nc = 1 and nk = 1, OF d 1 2]
  have "agent_reported r \<and> agent_reported r'"
    by blast
  with 1 2 show ?thesis by blast
qed

text \<open>
  C6, as stated, fails when the category has another bullet line: the second bullet of
  \<open>- Behavior: good (Score: 4/5)\<close>, \<open>- Behavior: bad\<close> takes the behavior branch and
  has no score, and yet the behavior text is \<open>good\<close> and the score 4, from the first.
\<close>

theorem duplicate_bullet_counterexample:
  "splitlines (''- Behavior: good (Score: 4/5)'' @ [CHR 0x0A] @ ''- Behavior: bad'')
     = [''- Behavior: good (Score: 4/5)'', ''- Behavior: bad'']
   \<and> branch ''- Behavior: bad'' = Some SecBehavior
   \<and> re_search (score_re ''- Behavior:'') ''- Behavior: bad'' = None
   \<and> extract_info (''- Behavior: good (Score: 4/5)'' @ [CHR 0x0A] @ ''- Behavior: bad'')
     = ([], ''good'', [], [], 4, 1, 1)"
  by code_simp

text \<open>
  C6, amended. For every completion text in which every line that takes the branch of a
  category lacks a matching score annotation (it has no \<open>(score:\<close> at all, or the regular
  expression of the branch fails on it for another reason), \<open>extract_info\<close> leaves the text
  of that category empty and its score at 1: nothing of such a bullet is kept.
\<close>

theorem bullet_without_score_discarded:
  assumes "c \<noteq> SecSummary"
    and "\<forall>l\<in>set (splitlines text). branch l = Some c \<longrightarrow>
           \<not> py_in ''(score:'' (lower l) \<or> re_search (score_re (label c)) l = None"
  shows "category c (extract_info text) = Some ([], 1)"
proof -
  from assms(2)
  have "\<forall>l\<in>set (splitlines text). branch l = Some c \<longrightarrow> re_search (score_re (label c)) l = None"
    using re_search_needs_score by blast
  with assms(1) show ?thesis by (rule no_match_defaults)
qed

theorem bullet_without_score_discarded_witness:
  "category SecConv (extract_info (''Summary: ok'' @ [CHR 0x0A] @
      ''- Conversation Quality: Clear and responsive'')) = Some ([], 1)"
proof -
  have "\<forall>l\<in>set (splitlines (''Summary: ok'' @ [CHR 0x0A] @
           ''- Conversation Quality: Clear and responsive'')).
          branch l = Some SecConv \<longrightarrow>
          \<not> py_in ''(score:'' (lower l) \<or> re_search (score_re (label SecConv)) l = None"
    by code_simp
  with bullet_without_score_discarded [of SecConv] show ?thesis by blast
qed

text \<open>
  C7. For every completion text with no line that starts with \<open>summary:\<close> (after trimming
  and lowercasing) and with none of the three category markers anywhere in it,
  \<open>extract_info\<close> returns the empty summary, three empty texts and three scores 1.
\<close>

theorem no_markers_all_defaults:
  assumes "\<forall>l\<in>set (splitlines text). \<not> startswith (lower (strip l)) ''summary:''"
    and "\<not> py_in ''- behavior:'' (lower text)"
    and "\<not> py_in ''- conversation quality:'' (lower text)"
    and "\<not> py_in ''- know-how of the issue:'' (lower text)"
  shows "extract_info text = ([], [], [], [], 1, 1, 1)"
proof -
  have "\<forall>l\<in>set (splitlines text). branch l = None"
    using assms line_marker_in_text [of _ "text"]
    by (auto simp: branch_def Let_def)
  then have "foldl step init_locals (splitlines text) = init_locals"
    by (rule foldl_step_else) (simp add: init_locals_def)
  then show ?thesis
    by (simp add: extract_info_def init_locals_def strip_Nil)
qed

theorem no_markers_all_defaults_witness:
  "extract_info (''I cannot evaluate this conversation.'' @ [CHR 0x0A] @ ''Score: 3/5'')
     = ([], [], [], [], 1, 1, 1)"
proof -
  let ?t = "''I cannot evaluate this conversation.'' @ [CHR 0x0A] @ ''Score: 3/5''"
  have "\<forall>l\<in>set (splitlines ?t). \<not> startswith (lower (strip l)) ''summary:''"
    by code_simp
  moreover have "\<not> py_in ''- behavior:'' (lower ?t)" by code_simp
  moreover have "\<not> py_in ''- conversation quality:'' (lower ?t)" by code_simp
  moreover have "\<not> py_in ''- know-how of the issue:'' (lower ?t)" by code_simp
  ultimately show ?thesis by (rule no_markers_all_defaults)
qed



text \<open>
  C10, as stated, fails in one part: the fields of a category can be the defaults although
  a line of its branch matched, since the capture itself can be the empty text with score 1.
\<close>

theorem capture_equal_to_defaults_counterexample:
  "branch ''- Behavior: (Score: 1/5)'' = Some SecBehavior
   \<and> re_search (score_re ''- Behavior:'') ''- Behavior: (Score: 1/5)'' = Some ([], CHR ''1'')
   \<and> extract_info ''- Behavior: (Score: 1/5)'' = ([], [], [], [], 1, 1, 1)"
  by code_simp

text \<open>
  C10, amended. When a line of a category's branch matched and a later line of the same
  branch fails the regular expression, as every other line of that branch after the match
  does, \<open>extract_info\<close> returns the text and score captured from the match: the failing
  line resets nothing. In any state the failing line changes the cursor only, to its
  category, so it leaves the summary mode and is not appended to the summary.
\<close>

theorem failed_duplicate_keeps_capture:
  assumes "splitlines text = pre @ [l1] @ mid @ [l2] @ post"
    and "c \<noteq> SecSummary"
    and "branch l1 = Some c" and "re_search (score_re (label c)) l1 = Some (t1, d1)"
    and "branch l2 = Some c" and "re_search (score_re (label c)) l2 = None"
    and "\<forall>l\<in>set (mid @ post). branch l = Some c \<longrightarrow> re_search (score_re (label c)) l = None"
  shows "category c (extract_info text) = Some (strip t1, int_of_digit d1)
       \<and> (\<forall>st. step st l2 = st\<lparr>current := Some c\<rparr>)"
proof -
  from assms(1) have "splitlines text = pre @ [l1] @ (mid @ [l2] @ post)" by simp
  moreover have "\<forall>l\<in>set (mid @ [l2] @ post).
      branch l = Some c \<longrightarrow> re_search (score_re (label c)) l = None"
    using assms(6,7) by auto
  ultimately have "category c (extract_info text) = Some (strip t1, int_of_digit d1)"
    using assms(3,2,4) last_match_wins by blast
  moreover have "\<forall>st. step st l2 = st\<lparr>current := Some c\<rparr>"
    using assms(5,2,6) by (simp add: step_no_match)
  ultimately show ?thesis by simp
qed

theorem failed_duplicate_keeps_capture_witness:
  "category SecKnow (extract_info (''Summary:'' @ [CHR 0x0A] @
      ''- Know-How of the Issue: Correct fix (Score: 5/5)'' @ [CHR 0x0A] @
      ''- Know-How of the Issue: none (Score: x/5)'')) = Some (''Correct fix'', 5)
   \<and> (\<forall>st. step st ''- Know-How of the Issue: none (Score: x/5)''
             = st\<lparr>current := Some SecKnow\<rparr>)"
proof -
  let ?l1 = "''- Know-How of the Issue: Correct fix (Score: 5/5)''"
  let ?l2 = "''- Know-How of the Issue: none (Score: x/5)''"
  have 1: "splitlines (''Summary:'' @ [CHR 0x0A] @ ?l1 @ [CHR 0x0A] @ ?l2)
           = [''Summary:''] @ [?l1] @ [] @ [?l2] @ []" by code_simp
  have 2: "branch ?l1 = Some SecKnow" by code_simp
  have 3: "re_search (score_re (label SecKnow)) ?l1 = Some (''Correct fix '', CHR ''5'')"
    by code_simp
  have 4: "branch ?l2 = Some SecKnow" by code_simp
  have 5: "re_search (score_re (label SecKnow)) ?l2 = None" by code_simp
  have 6: "strip ''Correct fix '' = ''Correct fix''" by code_simp
  have 7: "int_of_digit CHR ''5'' = 5" by code_simp
  from failed_duplicate_keeps_capture [OF 1 _ 2 3 4 5] show ?thesis
    by (simp add: 6 7)
qed

end
